theory Spec2Isabelle
  imports Main "HOL-Library.Sublist" "HOL-Library.Multiset"
begin

section \<open>Strings and arrays of the host language\<close>

text \<open>
  A string of the program is a \<^typ>\<open>string\<close>: one \<^typ>\<open>char\<close> stands for one UTF-16 code
  unit below 256 (the Latin-1 range), so \<open>length\<close> is the \<open>.length\<close> of the program. The
  white space of \<open>String.prototype.trim\<close> and of the regular expression class \<open>\s\<close> is, in
  that range, TAB, LF, VT, FF, CR, SPACE and NBSP.
\<close>

definition isSpace :: "char \<Rightarrow> bool" where
  "isSpace c = (c \<in> set [CHR 0x09, CHR 0x0A, CHR 0x0B, CHR 0x0C, CHR 0x0D, CHR 0x20, CHR 0xA0])"

definition trim :: "string \<Rightarrow> string" where
  "trim s = rev (dropWhile isSpace (rev (dropWhile isSpace s)))"

text \<open>
  \<open>String.prototype.toLowerCase\<close> on the Latin-1 range: the letters A..Z and the accented
  capitals 0xC0..0xDE (the multiplication sign 0xD7 apart) move up by 32.
\<close>

definition toLowerChar :: "char \<Rightarrow> char" where
  "toLowerChar c =
     (let n = (of_char c :: nat)
      in if (65 \<le> n \<and> n \<le> 90) \<or> (192 \<le> n \<and> n \<le> 222 \<and> n \<noteq> 215)
         then char_of (n + 32) else c)"

definition toLowerCase :: "string \<Rightarrow> string" where
  "toLowerCase s = map toLowerChar s"

text \<open>\<open>s.includes(q)\<close> on strings: \<open>q\<close> occurs in \<open>s\<close> as a contiguous run.\<close>

definition includes_str :: "string \<Rightarrow> string \<Rightarrow> bool" where
  "includes_str s q = sublist q s"

text \<open>\<open>xs.includes(x)\<close> on arrays of strings.\<close>

definition includes_arr :: "'a list \<Rightarrow> 'a \<Rightarrow> bool" where
  "includes_arr xs x = (x \<in> set xs)"

text \<open>\<open>xs.join(sep)\<close>.\<close>

fun join :: "string \<Rightarrow> string list \<Rightarrow> string" where
  "join sep [] = []"
| "join sep [x] = x"
| "join sep (x # y # ys) = x @ sep @ join sep (y # ys)"

text \<open>
  \<open>xs.slice(start)\<close> and \<open>xs.slice(start, stop)\<close>: a negative index counts from the end, and
  both indices are clamped to the array. \<open>s.substring(start, stop)\<close> clamps negative indices
  to 0 and swaps the two when they are out of order.
\<close>

definition relIndex :: "int \<Rightarrow> nat \<Rightarrow> nat" where
  "relIndex i len = (if i < 0 then nat (max (int len + i) 0) else min (nat i) len)"

definition sliceFrom :: "int \<Rightarrow> 'a list \<Rightarrow> 'a list" where
  "sliceFrom start xs = drop (relIndex start (length xs)) xs"

definition slice :: "int \<Rightarrow> int \<Rightarrow> 'a list \<Rightarrow> 'a list" where
  "slice start stop xs =
     (let k = relIndex start (length xs); final = relIndex stop (length xs)
      in take (final - k) (drop k xs))"

definition substring :: "int \<Rightarrow> int \<Rightarrow> string \<Rightarrow> string" where
  "substring start stop s =
     (let a = min (nat (max start 0)) (length s); b = min (nat (max stop 0)) (length s)
      in take (max a b - min a b) (drop (min a b) s))"

text \<open>
  \<open>xs.sort(compare)\<close>. The sort of the language is stable, and for a consistent comparator
  its result is the one stable arrangement of the elements in the comparator's order;
  insertion from the right computes it. A comparator returns a number whose sign decides.
\<close>

fun insertBy :: "('a \<Rightarrow> 'a \<Rightarrow> int) \<Rightarrow> 'a \<Rightarrow> 'a list \<Rightarrow> 'a list" where
  "insertBy cmp x [] = [x]"
| "insertBy cmp x (y # ys) = (if cmp x y \<le> 0 then x # y # ys else y # insertBy cmp x ys)"

definition sortWith :: "('a \<Rightarrow> 'a \<Rightarrow> int) \<Rightarrow> 'a list \<Rightarrow> 'a list" where
  "sortWith cmp xs = foldr (insertBy cmp) xs []"

text \<open>
  A consistent comparator, as the language's standard asks of the argument of \<open>sort\<close>:
  any two elements are comparable and the order is transitive.
\<close>

definition consistentComparator :: "('a \<Rightarrow> 'a \<Rightarrow> int) \<Rightarrow> bool" where
  "consistentComparator cmp =
     ((\<forall>a b. cmp a b \<le> 0 \<or> cmp b a \<le> 0) \<and>
      (\<forall>a b c. cmp a b \<le> 0 \<and> cmp b c \<le> 0 \<longrightarrow> cmp a c \<le> 0))"

text \<open>
  \<open>a.localeCompare(b)\<close> depends on the locale of the browser, so the functions that sort by
  guest take it as the parameter \<open>localeCompare\<close>. The comparison by code units below is one
  instance, used to run the model on concrete inputs.
\<close>

fun compareCodeUnits :: "string \<Rightarrow> string \<Rightarrow> int" where
  "compareCodeUnits [] [] = 0"
| "compareCodeUnits [] (y # ys) = - 1"
| "compareCodeUnits (x # xs) [] = 1"
| "compareCodeUnits (x # xs) (y # ys) =
     (if (of_char x :: nat) < of_char y then - 1
      else if (of_char y :: nat) < of_char x then 1
      else compareCodeUnits xs ys)"

section \<open>Data model (app.js)\<close>

record Episode =
  slug :: string
  guest :: string
  title :: string
  description :: string
  "keywords" :: "string list"
  duration :: string
  duration_seconds :: int
  view_count :: int
  youtube_url :: string
  transcript_path :: string

text \<open>
  Arrays of episode records are objects with an identity: \<open>AppState.allEpisodes\<close> is the same
  array as \<open>AppState.indexData.episodes\<close>, and \<open>sort\<close> works in place. They live in a store,
  and the state holds references. The episode records themselves and their keyword arrays
  are never written by the program, so they are values.
\<close>

type_synonym ref = nat

record Heap =
  arrays :: "ref \<Rightarrow> Episode list"
  nextRef :: ref

definition alloc :: "Episode list \<Rightarrow> Heap \<Rightarrow> ref \<times> Heap" where
  "alloc xs h = (nextRef h, h\<lparr>arrays := (arrays h)(nextRef h := xs), nextRef := Suc (nextRef h)\<rparr>)"

text \<open>
  The index document. \<open>all_keywords\<close> is an array reachable through the document only, so
  it is a field, and writing the array in place is writing the field.
\<close>

record IndexDocument =
  total_episodes :: int
  all_keywords :: "string list"
  episodes :: ref

text \<open>The open episode: \<open>{ ...episode, fullTranscript: parsed.content }\<close>.\<close>

record CurrentEpisode = Episode +
  fullTranscript :: string

text \<open>
  \<open>AppState\<close>. \<open>selectedKeywords\<close> is a \<open>Set\<close>: its elements in insertion order, without
  repetition.
\<close>

record AppState =
  indexData :: "IndexDocument option"
  allEpisodes :: ref
  filteredEpisodes :: ref
  selectedKeywords :: "string list"
  currentSort :: string
  searchQuery :: string
  currentEpisode :: "CurrentEpisode option"

definition set_add :: "string \<Rightarrow> string list \<Rightarrow> string list" where
  "set_add k s = (if k \<in> set s then s else s @ [k])"

definition set_delete :: "string \<Rightarrow> string list \<Rightarrow> string list" where
  "set_delete k s = removeAll k s"

section \<open>The filter and sort pipeline (app.js)\<close>

text \<open>
  \<open>sortEpisodes\<close>: sorts the array \<open>AppState.filteredEpisodes\<close> in place, by the radio value
  in \<open>currentSort\<close>; any other value leaves the array as it is.
\<close>

definition byViews :: "Episode \<Rightarrow> Episode \<Rightarrow> int" where
  "byViews a b = view_count b - view_count a"

definition byDuration :: "Episode \<Rightarrow> Episode \<Rightarrow> int" where
  "byDuration a b = duration_seconds b - duration_seconds a"

definition byGuest :: "(string \<Rightarrow> string \<Rightarrow> int) \<Rightarrow> Episode \<Rightarrow> Episode \<Rightarrow> int" where
  "byGuest localeCompare a b = localeCompare (guest a) (guest b)"

definition sortEpisodes :: "(string \<Rightarrow> string \<Rightarrow> int) \<Rightarrow> AppState \<Rightarrow> Heap \<Rightarrow> Heap" where
  "sortEpisodes localeCompare st h =
     (let r = filteredEpisodes st; xs = arrays h r
      in if currentSort st = ''views'' then h\<lparr>arrays := (arrays h)(r := sortWith byViews xs)\<rparr>
         else if currentSort st = ''duration'' then h\<lparr>arrays := (arrays h)(r := sortWith byDuration xs)\<rparr>
         else if currentSort st = ''title'' then h\<lparr>arrays := (arrays h)(r := sortWith (byGuest localeCompare) xs)\<rparr>
         else h)"

text \<open>The keyword step of \<open>applyFilters\<close> (AND over the selected keywords).\<close>

definition keywordFilter :: "string list \<Rightarrow> Episode list \<Rightarrow> Episode list" where
  "keywordFilter selected filtered =
     (if length selected > 0
      then filter (\<lambda>episode. list_all (\<lambda>keyword. includes_arr (keywords episode) keyword) selected) filtered
      else filtered)"

text \<open>
  The search step of \<open>applyFilters\<close>. The text searched is a template literal: each of the
  four parts on a line of its own, behind a line break and sixteen spaces, and a last line
  of twelve spaces.
\<close>

definition indent16 :: string where
  "indent16 = CHR 0x0A # replicate 16 (CHR '' '')"

definition searchText :: "Episode \<Rightarrow> string" where
  "searchText episode =
     toLowerCase (indent16 @ guest episode @ indent16 @ title episode @ indent16 @ description episode
       @ indent16 @ join '' '' (keywords episode) @ CHR 0x0A # replicate 12 (CHR '' ''))"

definition searchFilter :: "string \<Rightarrow> Episode list \<Rightarrow> Episode list" where
  "searchFilter query filtered =
     (if query \<noteq> []
      then filter (\<lambda>episode. includes_str (searchText episode) query) filtered
      else filtered)"

text \<open>
  \<open>applyFilters\<close>: a copy of \<open>allEpisodes\<close> goes through both steps; the resulting new array
  becomes \<open>filteredEpisodes\<close> and is sorted. \<open>renderEpisodes\<close> and \<open>updateSearchStats\<close> write
  the page only and are left out.
\<close>

definition applyFilters :: "(string \<Rightarrow> string \<Rightarrow> int) \<Rightarrow> AppState \<Rightarrow> Heap \<Rightarrow> AppState \<times> Heap" where
  "applyFilters localeCompare st h =
     (let filtered = arrays h (allEpisodes st);
          filtered = keywordFilter (selectedKeywords st) filtered;
          filtered = searchFilter (searchQuery st) filtered;
          (r, h') = alloc filtered h;
          st' = st\<lparr>filteredEpisodes := r\<rparr>
      in (st', sortEpisodes localeCompare st' h'))"

text \<open>The handlers; the arguments are \<open>event.target.value\<close> and \<open>event.target.checked\<close>.\<close>

definition handleKeywordFilter ::
  "(string \<Rightarrow> string \<Rightarrow> int) \<Rightarrow> string \<Rightarrow> bool \<Rightarrow> AppState \<Rightarrow> Heap \<Rightarrow> AppState \<times> Heap" where
  "handleKeywordFilter localeCompare keyword checked st h =
     applyFilters localeCompare
       (st\<lparr>selectedKeywords :=
            (if checked then set_add keyword (selectedKeywords st)
             else set_delete keyword (selectedKeywords st))\<rparr>) h"

definition handleSearch ::
  "(string \<Rightarrow> string \<Rightarrow> int) \<Rightarrow> string \<Rightarrow> AppState \<Rightarrow> Heap \<Rightarrow> AppState \<times> Heap" where
  "handleSearch localeCompare v st h =
     applyFilters localeCompare (st\<lparr>searchQuery := toLowerCase (trim v)\<rparr>) h"

definition handleSortChange ::
  "(string \<Rightarrow> string \<Rightarrow> int) \<Rightarrow> string \<Rightarrow> AppState \<Rightarrow> Heap \<Rightarrow> AppState \<times> Heap" where
  "handleSortChange localeCompare v st h =
     (let st' = st\<lparr>currentSort := v\<rparr> in (st', sortEpisodes localeCompare st' h))"

section \<open>Loading the index and the keyword panel (app.js)\<close>

text \<open>
  The state at page load: \<open>allEpisodes\<close> and \<open>filteredEpisodes\<close> are two empty arrays.
\<close>

definition initialHeap :: Heap where
  "initialHeap = \<lparr>arrays = (\<lambda>r. []), nextRef = 2\<rparr>"

definition initialState :: AppState where
  "initialState =
     \<lparr>indexData = None, allEpisodes = 0, filteredEpisodes = 1, selectedKeywords = [],
      currentSort = ''views'', searchQuery = [], currentEpisode = None\<rparr>"

text \<open>
  \<open>loadIndex\<close>. The answer of \<open>fetch('data/index.json')\<close> is an argument: either the load
  fails (the fetch rejects, the status is not ok, or the payload is not JSON; the error is
  caught and the state stays), or the payload is an index document. Parsing it builds the
  episodes array; \<open>allEpisodes\<close> is that same array and \<open>filteredEpisodes\<close> a copy.
\<close>

datatype IndexResponse = LoadFailed | LoadOk int "string list" "Episode list"

definition loadIndex :: "IndexResponse \<Rightarrow> AppState \<Rightarrow> Heap \<Rightarrow> AppState \<times> Heap" where
  "loadIndex resp st h =
     (case resp of
        LoadFailed \<Rightarrow> (st, h)
      | LoadOk n kws eps \<Rightarrow>
          (let (r, h1) = alloc eps h;
               st1 = st\<lparr>indexData := Some \<lparr>total_episodes = n, all_keywords = kws, episodes = r\<rparr>\<rparr>;
               st2 = st1\<lparr>allEpisodes := r\<rparr>;
               (r', h2) = alloc (arrays h1 (allEpisodes st2)) h1
           in (st2\<lparr>filteredEpisodes := r'\<rparr>, h2)))"

text \<open>
  \<open>renderKeywordFilters\<close>: counts the episodes of each keyword in an object used as a
  dictionary, then calls \<open>sort\<close> on \<open>AppState.indexData.all_keywords\<close> with the counts,
  descending. The markup it writes is left out. (Keywords that name a property of
  \<open>Object.prototype\<close> are outside the model.)
\<close>

definition orZero :: "int option \<Rightarrow> int" where
  "orZero v = (case v of None \<Rightarrow> 0 | Some c \<Rightarrow> c)"

definition countKeyword :: "string \<Rightarrow> (string \<rightharpoonup> int) \<Rightarrow> (string \<rightharpoonup> int)" where
  "countKeyword keyword keywordCounts = keywordCounts(keyword \<mapsto> orZero (keywordCounts keyword) + 1)"

definition countKeywords :: "Episode list \<Rightarrow> (string \<rightharpoonup> int)" where
  "countKeywords eps = fold (\<lambda>episode. fold countKeyword (keywords episode)) eps Map.empty"

definition byCount :: "(string \<rightharpoonup> int) \<Rightarrow> string \<Rightarrow> string \<Rightarrow> int" where
  "byCount keywordCounts a b = orZero (keywordCounts b) - orZero (keywordCounts a)"

definition renderKeywordFilters :: "AppState \<Rightarrow> Heap \<Rightarrow> AppState" where
  "renderKeywordFilters st h =
     (case indexData st of
        None \<Rightarrow> st
      | Some d \<Rightarrow>
          (let keywordCounts = countKeywords (arrays h (allEpisodes st))
           in st\<lparr>indexData := Some (d\<lparr>all_keywords := sortWith (byCount keywordCounts) (all_keywords d)\<rparr>)\<rparr>))"

section \<open>The detail view (app.js)\<close>

text \<open>
  \<open>parseTranscript\<close> matches \<open>/^---\s*\n.*?\n---\s*\n(.*)$/s\<close> against the text. The matcher
  below backtracks in the order of the language: a greedy \<open>\s*\<close> gives back one character
  at a time (\<open>spaceSplits\<close>: what is left after each number of white-space characters,
  longest run first), the lazy \<open>.*?\<close> takes one more character at a time (\<open>lazySplits\<close>:
  what is left, shortest run first; with the flag \<open>s\<close> the dot matches every character), and
  the group \<open>(.*)$\<close> takes all the rest. The result is the text of the group.
  \<open>matchClosing\<close> is the part \<open>\n---\s*\n(.*)$\<close>, \<open>matchBody\<close> the part from the first \<open>\n\<close> on.
\<close>

fun stripPrefix :: "string \<Rightarrow> string \<Rightarrow> string option" where
  "stripPrefix [] s = Some s"
| "stripPrefix (p # ps) [] = None"
| "stripPrefix (p # ps) (c # cs) = (if p = c then stripPrefix ps cs else None)"

fun firstSome :: "('a \<Rightarrow> 'b option) \<Rightarrow> 'a list \<Rightarrow> 'b option" where
  "firstSome f [] = None"
| "firstSome f (x # xs) = (case f x of Some y \<Rightarrow> Some y | None \<Rightarrow> firstSome f xs)"

fun spaceSplits :: "string \<Rightarrow> string list" where
  "spaceSplits [] = [[]]"
| "spaceSplits (c # cs) = (if isSpace c then spaceSplits cs @ [c # cs] else [c # cs])"

fun lazySplits :: "string \<Rightarrow> string list" where
  "lazySplits [] = [[]]"
| "lazySplits (c # cs) = (c # cs) # lazySplits cs"

definition matchClosing :: "string \<Rightarrow> string option" where
  "matchClosing s =
     (case stripPrefix [CHR 0x0A, CHR ''-'', CHR ''-'', CHR ''-''] s of
        None \<Rightarrow> None
      | Some r \<Rightarrow> firstSome (stripPrefix [CHR 0x0A]) (spaceSplits r))"

definition matchBody :: "string \<Rightarrow> string option" where
  "matchBody s =
     (case stripPrefix [CHR 0x0A] s of
        None \<Rightarrow> None
      | Some r \<Rightarrow> firstSome matchClosing (lazySplits r))"

definition matchFrontmatter :: "string \<Rightarrow> string option" where
  "matchFrontmatter fullText =
     (case stripPrefix ''---'' fullText of
        None \<Rightarrow> None
      | Some r \<Rightarrow> firstSome matchBody (spaceSplits r))"

record Parsed =
  content :: string

definition parseTranscript :: "string \<Rightarrow> Parsed" where
  "parseTranscript fullText =
     (let content = (case matchFrontmatter fullText of Some group1 \<Rightarrow> group1 | None \<Rightarrow> fullText)
      in \<lparr>content = trim content\<rparr>)"

text \<open>
  The pattern said in words: three dashes at the start, white space, a line break, any text,
  a line break and three dashes, white space, a line break, and a rest.
\<close>

definition hasFrontmatter :: "string \<Rightarrow> bool" where
  "hasFrontmatter fullText =
     (\<exists>w1 m w2 rest. list_all isSpace w1 \<and> list_all isSpace w2 \<and>
        fullText = ''---'' @ w1 @ [CHR 0x0A] @ m @ [CHR 0x0A, CHR ''-'', CHR ''-'', CHR ''-''] @ w2 @ [CHR 0x0A] @ rest)"

text \<open>
  \<open>loadEpisodeDetail\<close>. The answer of the fetch of the transcript is an argument: \<open>None\<close> when
  the fetch rejects or the status is not ok, else the text. An unknown slug and a failed
  fetch throw inside the \<open>try\<close>; the state stays. \<open>closeDetailView\<close> clears the open episode.
\<close>

definition loadEpisodeDetail :: "string option \<Rightarrow> string \<Rightarrow> AppState \<Rightarrow> Heap \<Rightarrow> AppState" where
  "loadEpisodeDetail resp s st h =
     (case find (\<lambda>ep. slug ep = s) (arrays h (allEpisodes st)) of
        None \<Rightarrow> st
      | Some episode \<Rightarrow>
          (case resp of
             None \<Rightarrow> st
           | Some transcriptText \<Rightarrow>
               (let parsed = parseTranscript transcriptText
                in st\<lparr>currentEpisode :=
                        Some (Episode.extend episode (CurrentEpisode.fields (content parsed)))\<rparr>)))"

definition closeDetailView :: "AppState \<Rightarrow> AppState" where
  "closeDetailView st = st\<lparr>currentEpisode := None\<rparr>"

section \<open>The chat (the script of the chat panel, second part of serve.sh)\<close>

record Turn =
  role :: string
  turnContent :: string

record ChatState =
  apiKey :: string
  provider :: string
  conversationHistory :: "Turn list"

text \<open>
  The context object of \<open>getContextForChat\<close>. Its properties \<open>totalEpisodes\<close>,
  \<open>filteredEpisodes\<close>, \<open>selectedKeywords\<close>, \<open>currentEpisode\<close> and \<open>availableEpisodes\<close> carry the
  prefix \<open>ctx_\<close> here, and \<open>guest\<close>, \<open>title\<close>, \<open>keywords\<close> of an entry the prefix \<open>sum_\<close>.
  A property that is not set is \<open>None\<close>.
\<close>

record Summary =
  sum_guest :: string
  sum_title :: string
  sum_keywords :: "string list"

record Excerpt = Summary +
  transcript :: string

record Context =
  ctx_totalEpisodes :: nat
  ctx_filteredEpisodes :: nat
  ctx_selectedKeywords :: "string list"
  ctx_currentEpisode :: "Excerpt option"
  ctx_availableEpisodes :: "Summary list"

definition getContextForChat :: "AppState \<Rightarrow> Heap \<Rightarrow> Context" where
  "getContextForChat st h =
     \<lparr>ctx_totalEpisodes = length (arrays h (allEpisodes st)),
      ctx_filteredEpisodes = length (arrays h (filteredEpisodes st)),
      ctx_selectedKeywords = selectedKeywords st,
      ctx_currentEpisode =
        (case currentEpisode st of
           None \<Rightarrow> None
         | Some ce \<Rightarrow>
             Some \<lparr>sum_guest = guest ce, sum_title = title ce, sum_keywords = keywords ce,
                   transcript = substring 0 8000 (fullTranscript ce)\<rparr>),
      ctx_availableEpisodes =
        map (\<lambda>ep. \<lparr>sum_guest = guest ep, sum_title = title ep, sum_keywords = keywords ep\<rparr>)
          (slice 0 10 (arrays h (filteredEpisodes st)))\<rparr>"

text \<open>
  The page and the network. \<open>chatMessages\<close> are the messages shown, each with its type;
  \<open>requests\<close> is the log of the calls of \<open>fetch\<close>. A request records the address, the key,
  the context from which \<open>buildSystemPrompt\<close> writes the preamble (the wording of the
  preamble is left out) and the turns sent.
\<close>

record Request =
  url :: string
  authKey :: string
  preamble :: Context
  messages :: "Turn list"

record World =
  chat :: ChatState
  chatInput :: string
  chatMessages :: "(string \<times> string) list"
  sendDisabled :: bool
  sendText :: string
  requests :: "Request list"

text \<open>
  What the provider answers is an argument. The fetch rejects with a message, or there is a
  response with its \<open>ok\<close> flag and a body. Reading the body as JSON rejects with a message,
  or gives an object of which the program reads two paths: the error message
  (\<open>error.error?.message\<close>, \<open>None\<close> when absent), and the reply text (\<open>content[0].text\<close> or
  \<open>choices[0].message.content\<close>), where following the path can throw a \<open>TypeError\<close> with a
  message (\<open>Inl\<close>).
\<close>

datatype Body = NotJson string | Json "string option" "string + string"

datatype FetchResult = Rejected string | Response bool Body

text \<open>\<open>a || b\<close> on an optional string: the empty string is falsy too.\<close>

definition orElse :: "string option \<Rightarrow> string \<Rightarrow> string" where
  "orElse a b = (case a of None \<Rightarrow> b | Some s \<Rightarrow> if s = [] then b else s)"

definition addChatMessage :: "string \<Rightarrow> string \<Rightarrow> World \<Rightarrow> World" where
  "addChatMessage type text w = w\<lparr>chatMessages := chatMessages w @ [(type, text)]\<rparr>"

text \<open>
  The update of the history at the end of both query functions: \<open>push\<close> of the two turns,
  then \<open>slice(-10)\<close> when there are more than ten.
\<close>

definition updateHistory :: "string \<Rightarrow> string \<Rightarrow> Turn list \<Rightarrow> Turn list" where
  "updateHistory message reply history =
     (let pushed = history @ [\<lparr>role = ''user'', turnContent = message\<rparr>,
                              \<lparr>role = ''assistant'', turnContent = reply\<rparr>]
      in if length pushed > 10 then sliceFrom (- 10) pushed else pushed)"

text \<open>
  \<open>queryClaude\<close> and \<open>queryOpenAI\<close>: the result is \<open>Inl\<close> the message of the error thrown, or
  \<open>Inr\<close> the reply.
\<close>

definition queryClaude :: "FetchResult \<Rightarrow> string \<Rightarrow> Context \<Rightarrow> World \<Rightarrow> (string + string) \<times> World" where
  "queryClaude res message context w =
     (let request = \<lparr>url = ''https://api.anthropic.com/v1/messages'', authKey = apiKey (chat w),
                     preamble = context,
                     messages = conversationHistory (chat w) @ [\<lparr>role = ''user'', turnContent = message\<rparr>]\<rparr>;
          w1 = w\<lparr>requests := requests w @ [request]\<rparr>
      in case res of
           Rejected e \<Rightarrow> (Inl e, w1)
         | Response ok body \<Rightarrow>
             (if \<not> ok then
                (case body of
                   NotJson e \<Rightarrow> (Inl e, w1)
                 | Json err reply \<Rightarrow> (Inl (orElse err ''Failed to get response from Claude''), w1))
              else
                (case body of
                   NotJson e \<Rightarrow> (Inl e, w1)
                 | Json err reply \<Rightarrow>
                     (case reply of
                        Inl e \<Rightarrow> (Inl e, w1)
                      | Inr text \<Rightarrow>
                          (Inr text,
                           w1\<lparr>chat := (chat w1)\<lparr>conversationHistory :=
                                   updateHistory message text (conversationHistory (chat w1))\<rparr>\<rparr>)))))"

definition queryOpenAI :: "FetchResult \<Rightarrow> string \<Rightarrow> Context \<Rightarrow> World \<Rightarrow> (string + string) \<times> World" where
  "queryOpenAI res message context w =
     (let request = \<lparr>url = ''https://api.openai.com/v1/chat/completions'', authKey = apiKey (chat w),
                     preamble = context,
                     messages = conversationHistory (chat w) @ [\<lparr>role = ''user'', turnContent = message\<rparr>]\<rparr>;
          w1 = w\<lparr>requests := requests w @ [request]\<rparr>
      in case res of
           Rejected e \<Rightarrow> (Inl e, w1)
         | Response ok body \<Rightarrow>
             (if \<not> ok then
                (case body of
                   NotJson e \<Rightarrow> (Inl e, w1)
                 | Json err reply \<Rightarrow> (Inl (orElse err ''Failed to get response from OpenAI''), w1))
              else
                (case body of
                   NotJson e \<Rightarrow> (Inl e, w1)
                 | Json err reply \<Rightarrow>
                     (case reply of
                        Inl e \<Rightarrow> (Inl e, w1)
                      | Inr text \<Rightarrow>
                          (Inr text,
                           w1\<lparr>chat := (chat w1)\<lparr>conversationHistory :=
                                   updateHistory message text (conversationHistory (chat w1))\<rparr>\<rparr>)))))"

definition queryAI :: "FetchResult \<Rightarrow> string \<Rightarrow> Context \<Rightarrow> World \<Rightarrow> (string + string) \<times> World" where
  "queryAI res message context w =
     (if provider (chat w) = ''claude'' then queryClaude res message context w
      else queryOpenAI res message context w)"

text \<open>
  \<open>sendChatMessage\<close>, from the click to the end of its \<open>finally\<close> block, with the answer of
  the provider as an argument.
\<close>

definition sendChatMessage :: "FetchResult \<Rightarrow> AppState \<Rightarrow> Heap \<Rightarrow> World \<Rightarrow> World" where
  "sendChatMessage res st h w =
     (let message = trim (chatInput w)
      in if message = [] then w
         else if apiKey (chat w) = [] then addChatMessage ''error'' ''Please enter your API key first.'' w
         else
           (let w1 = addChatMessage ''user'' message w;
                w2 = w1\<lparr>chatInput := [], sendDisabled := True, sendText := ''Sending...''\<rparr>;
                context = getContextForChat st h;
                (r, w3) = queryAI res message context w2;
                w4 = (case r of
                        Inr response \<Rightarrow> addChatMessage ''assistant'' response w3
                      | Inl e \<Rightarrow> addChatMessage ''error'' (''Error: '' @ e) w3)
            in w4\<lparr>sendDisabled := False, sendText := ''Send''\<rparr>))"

definition clearChatHistory :: "World \<Rightarrow> World" where
  "clearChatHistory w = w\<lparr>chat := (chat w)\<lparr>conversationHistory := []\<rparr>\<rparr>"

section \<open>The claims' words, and a small archive to run the model on\<close>

text \<open>
  The search text as the specification words it: the case-folded concatenation of guest,
  title, description and keywords. It is compared with \<open>searchText\<close>, which follows the code.
\<close>

definition specSearchText :: "Episode \<Rightarrow> string" where
  "specSearchText episode =
     toLowerCase (guest episode @ title episode @ description episode @ concat (keywords episode))"

definition mkEpisode :: "string \<Rightarrow> string \<Rightarrow> string \<Rightarrow> string list \<Rightarrow> int \<Rightarrow> int \<Rightarrow> Episode" where
  "mkEpisode s g t ks secs views =
     \<lparr>slug = s, guest = g, title = t, description = [], keywords = ks, duration = [],
      duration_seconds = secs, view_count = views, youtube_url = [], transcript_path = []\<rparr>"

definition episodeA :: Episode where
  "episodeA = mkEpisode ''a'' ''Brian Chesky'' ''Founder mode'' [''growth''] 3600 100"

definition episodeB :: Episode where
  "episodeB = mkEpisode ''b'' ''Ada Chen'' ''Pricing'' [''pricing'', ''growth''] 5400 300"

definition episodeC :: Episode where
  "episodeC = mkEpisode ''c'' ''Zoe Lee'' ''Hiring well'' [''hiring''] 1800 200"

definition exampleIndex :: IndexResponse where
  "exampleIndex = LoadOk 3 [''hiring'', ''pricing'', ''growth''] [episodeA, episodeB, episodeC]"

definition loadedState :: AppState where
  "loadedState = fst (loadIndex exampleIndex initialState initialHeap)"

definition loadedHeap :: Heap where
  "loadedHeap = snd (loadIndex exampleIndex initialState initialHeap)"

definition longState :: AppState where
  "longState = loadedState\<lparr>currentEpisode :=
       Some (Episode.extend episodeA (CurrentEpisode.fields (replicate 9000 (CHR ''x''))))\<rparr>"

definition longHeap :: Heap where
  "longHeap = loadedHeap\<lparr>arrays := (arrays loadedHeap)(3 := replicate 12 episodeB)\<rparr>"

definition noKeyWorld :: World where
  "noKeyWorld =
     \<lparr>chat = \<lparr>apiKey = [], provider = ''claude'', conversationHistory = []\<rparr>,
      chatInput = ''hello'', chatMessages = [], sendDisabled = False, sendText = ''Send'',
      requests = []\<rparr>"

definition fullWorld :: World where
  "fullWorld =
     \<lparr>chat = \<lparr>apiKey = ''key'', provider = ''openai'',
              conversationHistory =
                concat (replicate 5 [\<lparr>role = ''user'', turnContent = ''q''\<rparr>,
                                     \<lparr>role = ''assistant'', turnContent = ''a''\<rparr>])\<rparr>,
      chatInput = ''hello'', chatMessages = [], sendDisabled = False, sendText = ''Send'',
      requests = []\<rparr>"

definition blankWorld :: World where
  "blankWorld = noKeyWorld\<lparr>chatInput := ''   ''\<rparr>"

section \<open>Helper facts\<close>

lemma mset_insertBy: "mset (insertBy cmp x ys) = add_mset x (mset ys)"
  by (induction ys) auto

lemma mset_sortWith: "mset (sortWith cmp xs) = mset xs"
  by (induction xs) (auto simp: sortWith_def mset_insertBy)

lemma set_sortWith: "set (sortWith cmp xs) = set xs"
  using mset_sortWith [of cmp xs] by (metis set_mset_mset)

lemma sorted_insertBy:
  assumes "consistentComparator cmp" and "sorted_wrt (\<lambda>a b. cmp a b \<le> 0) ys"
  shows "sorted_wrt (\<lambda>a b. cmp a b \<le> 0) (insertBy cmp x ys)"
  using assms(2)
proof (induction ys)
  case Nil
  then show ?case by simp
next
  case (Cons y ys)
  have total: "\<And>a b. cmp a b \<le> 0 \<or> cmp b a \<le> 0"
    and trans: "\<And>a b c. cmp a b \<le> 0 \<Longrightarrow> cmp b c \<le> 0 \<Longrightarrow> cmp a c \<le> 0"
    using assms(1) unfolding consistentComparator_def by blast+
  show ?case
  proof (cases "cmp x y \<le> 0")
    case True
    with Cons.prems trans show ?thesis by auto
  next
    case False
    then have "cmp y x \<le> 0" using total by blast
    moreover have "set (insertBy cmp x ys) = insert x (set ys)"
      using mset_insertBy [of cmp x ys] by (metis set_mset_add_mset_insert set_mset_mset)
    ultimately show ?thesis using False Cons by auto
  qed
qed

lemma sorted_sortWith:
  "consistentComparator cmp \<Longrightarrow> sorted_wrt (\<lambda>a b. cmp a b \<le> 0) (sortWith cmp xs)"
  by (induction xs) (auto simp: sortWith_def intro: sorted_insertBy)

lemma consistent_byViews: "consistentComparator byViews"
  by (auto simp: consistentComparator_def byViews_def)

lemma consistent_byDuration: "consistentComparator byDuration"
  by (auto simp: consistentComparator_def byDuration_def)

lemma consistent_byGuest: "consistentComparator lc \<Longrightarrow> consistentComparator (byGuest lc)"
  unfolding consistentComparator_def byGuest_def by blast

lemma sortEpisodes_arrays:
  "arrays (sortEpisodes lc st h) r =
     (if r = filteredEpisodes st then
        (if currentSort st = ''views'' then sortWith byViews (arrays h r)
         else if currentSort st = ''duration'' then sortWith byDuration (arrays h r)
         else if currentSort st = ''title'' then sortWith (byGuest lc) (arrays h r)
         else arrays h r)
      else arrays h r)"
  by (simp add: sortEpisodes_def Let_def)

lemma mset_sortEpisodes:
  "mset (arrays (sortEpisodes lc st h) r) = mset (arrays h r)"
  by (simp add: sortEpisodes_arrays mset_sortWith)

lemma applyFilters_result:
  assumes "applyFilters lc st h = (st', h')"
  shows "mset (arrays h' (filteredEpisodes st')) =
           mset (searchFilter (searchQuery st) (keywordFilter (selectedKeywords st) (arrays h (allEpisodes st))))"
  using assms
  by (auto simp: applyFilters_def alloc_def Let_def mset_sortEpisodes)

lemma keywordFilter_eq:
  "keywordFilter selected eps = filter (\<lambda>e. \<forall>k\<in>set selected. k \<in> set (keywords e)) eps"
  by (cases selected) (auto simp: keywordFilter_def includes_arr_def list_all_iff intro: filter_cong)

lemma searchFilter_eq:
  "searchFilter q eps = filter (\<lambda>e. q = [] \<or> includes_str (searchText e) q) eps"
  by (simp add: searchFilter_def)

lemma applyFilters_member:
  assumes "applyFilters lc st h = (st', h')"
  shows "e \<in> set (arrays h' (filteredEpisodes st')) \<longleftrightarrow>
           e \<in> set (arrays h (allEpisodes st))
           \<and> (\<forall>k\<in>set (selectedKeywords st). k \<in> set (keywords e))
           \<and> (searchQuery st = [] \<or> includes_str (searchText e) (searchQuery st))"
proof -
  have "set (arrays h' (filteredEpisodes st')) =
          set (searchFilter (searchQuery st) (keywordFilter (selectedKeywords st) (arrays h (allEpisodes st))))"
    using applyFilters_result [OF assms] by (metis set_mset_mset)
  then show ?thesis by (auto simp: keywordFilter_eq searchFilter_eq)
qed

lemma loaded_simps:
  "loadedState =
     \<lparr>indexData = Some \<lparr>total_episodes = 3, all_keywords = [''hiring'', ''pricing'', ''growth''], episodes = 2\<rparr>,
      allEpisodes = 2, filteredEpisodes = 3, selectedKeywords = [], currentSort = ''views'',
      searchQuery = [], currentEpisode = None\<rparr>"
  "arrays loadedHeap 2 = [episodeA, episodeB, episodeC]"
  "arrays loadedHeap 3 = [episodeA, episodeB, episodeC]"
  "nextRef loadedHeap = 4"
  by (simp_all add: loadedState_def loadedHeap_def exampleIndex_def initialState_def
      initialHeap_def loadIndex_def alloc_def Let_def)

lemmas episode_defs = mkEpisode_def episodeA_def episodeB_def episodeC_def

lemma compareCodeUnits_total: "compareCodeUnits a b \<le> 0 \<or> compareCodeUnits b a \<le> 0"
  by (induction a b rule: compareCodeUnits.induct) auto

lemma compareCodeUnits_trans:
  "compareCodeUnits a b \<le> 0 \<Longrightarrow> compareCodeUnits b c \<le> 0 \<Longrightarrow> compareCodeUnits a c \<le> 0"
proof (induction a b arbitrary: c rule: compareCodeUnits.induct)
  case 1
  then show ?case by simp
next
  case (2 y ys)
  then show ?case by (cases c) simp_all
next
  case (3 x xs)
  then show ?case by simp
next
  case (4 x xs y ys)
  show ?case
  proof (cases c)
    case Nil
    with "4.prems"(2) show ?thesis by simp
  next
    case (Cons z zs)
    let ?x = "of_char x :: nat" and ?y = "of_char y :: nat" and ?z = "of_char z :: nat"
    have xy: "?x < ?y \<or> (?x = ?y \<and> compareCodeUnits xs ys \<le> 0)"
      using "4.prems"(1) by (simp split: if_splits)
    have yz: "?y < ?z \<or> (?y = ?z \<and> compareCodeUnits ys zs \<le> 0)"
      using "4.prems"(2) Cons by (simp split: if_splits)
    show ?thesis
    proof (cases "?x < ?z")
      case True
      then show ?thesis using Cons by simp
    next
      case False
      with xy yz have eq: "?x = ?y" "?y = ?z"
        and le: "compareCodeUnits xs ys \<le> 0" "compareCodeUnits ys zs \<le> 0"
        by auto
      have "compareCodeUnits xs zs \<le> 0"
        using "4.IH" [of zs] eq le by simp
      then show ?thesis using Cons eq by simp
    qed
  qed
qed

lemma consistent_compareCodeUnits: "consistentComparator compareCodeUnits"
  unfolding consistentComparator_def
  using compareCodeUnits_total compareCodeUnits_trans by blast

lemma growth_selected:
  "applyFilters compareCodeUnits (loadedState\<lparr>selectedKeywords := [''growth'']\<rparr>) loadedHeap =
     (loadedState\<lparr>selectedKeywords := [''growth''], filteredEpisodes := 4\<rparr>,
      loadedHeap\<lparr>arrays := (arrays loadedHeap)(4 := [episodeB, episodeA]), nextRef := 5\<rparr>)"
  by (simp add: applyFilters_def loaded_simps alloc_def keywordFilter_def searchFilter_def
      includes_arr_def sortEpisodes_def sortWith_def byViews_def Let_def episode_defs)

lemma growth_hiring_selected:
  "applyFilters compareCodeUnits (loadedState\<lparr>selectedKeywords := [''growth'', ''hiring'']\<rparr>) loadedHeap =
     (loadedState\<lparr>selectedKeywords := [''growth'', ''hiring''], filteredEpisodes := 4\<rparr>,
      loadedHeap\<lparr>arrays := (arrays loadedHeap)(4 := []), nextRef := 5\<rparr>)"
  by (simp add: applyFilters_def loaded_simps alloc_def keywordFilter_def searchFilter_def
      includes_arr_def sortEpisodes_def sortWith_def byViews_def Let_def episode_defs)

lemma hiring_unchecked:
  "handleKeywordFilter compareCodeUnits ''hiring'' False
     (loadedState\<lparr>selectedKeywords := [''growth'', ''hiring'']\<rparr>) loadedHeap =
     (loadedState\<lparr>selectedKeywords := [''growth''], filteredEpisodes := 4\<rparr>,
      loadedHeap\<lparr>arrays := (arrays loadedHeap)(4 := [episodeB, episodeA]), nextRef := 5\<rparr>)"
  by (simp add: handleKeywordFilter_def set_delete_def applyFilters_def loaded_simps alloc_def
      keywordFilter_def searchFilter_def includes_arr_def sortEpisodes_def sortWith_def
      byViews_def Let_def episode_defs)

lemma sort_by_guest_example:
  "arrays (sortEpisodes compareCodeUnits (loadedState\<lparr>currentSort := ''title''\<rparr>) loadedHeap) 3 =
     [episodeB, episodeA, episodeC]"
  by (simp add: sortEpisodes_arrays loaded_simps sortWith_def byGuest_def episode_defs)

lemma loaded_fields:
  "allEpisodes loadedState = 2" "filteredEpisodes loadedState = 3" "selectedKeywords loadedState = []"
  "searchQuery loadedState = []" "currentSort loadedState = ''views''" "currentEpisode loadedState = None"
  "indexData loadedState = Some \<lparr>total_episodes = 3, all_keywords = [''hiring'', ''pricing'', ''growth''], episodes = 2\<rparr>"
  by (simp_all add: loaded_simps(1))

lemma substring_0: "0 \<le> n \<Longrightarrow> substring 0 n s = take (nat n) s"
  by (simp add: substring_def Let_def min_def)

lemma slice_0: "0 \<le> n \<Longrightarrow> slice 0 n xs = take (nat n) xs"
  by (simp add: slice_def relIndex_def Let_def min_def)

lemma chesky_arrays:
  "arrays (snd (handleSearch compareCodeUnits '' Chesky '' loadedState loadedHeap))
     (filteredEpisodes (fst (handleSearch compareCodeUnits '' Chesky '' loadedState loadedHeap))) = [episodeA]"
  by code_simp

lemma yfo_arrays:
  "arrays (snd (handleSearch compareCodeUnits ''yfo'' loadedState loadedHeap))
     (filteredEpisodes (fst (handleSearch compareCodeUnits ''yfo'' loadedState loadedHeap))) = []"
  by code_simp

lemma yfo_spec: "includes_str (specSearchText episodeA) ''yfo''"
  by code_simp


lemma long_context:
  "ctx_currentEpisode (getContextForChat longState longHeap) =
     Some \<lparr>sum_guest = ''Brian Chesky'', sum_title = ''Founder mode'', sum_keywords = [''growth''],
           transcript = replicate 8000 (CHR ''x'')\<rparr>"
  by (simp add: getContextForChat_def longState_def substring_0 CurrentEpisode.fields_def CurrentEpisode.defs
      Episode.defs episode_defs)

lemma example_counts:
  "countKeywords [episodeA, episodeB, episodeC] ''growth'' = Some 2"
  "countKeywords [episodeA, episodeB, episodeC] ''pricing'' = Some 1"
  "countKeywords [episodeA, episodeB, episodeC] ''hiring'' = Some 1"
  by (simp_all add: countKeywords_def countKeyword_def orZero_def episode_defs)

lemma renderKeywordFilters_frame:
  "allEpisodes (renderKeywordFilters st h) = allEpisodes st
   \<and> filteredEpisodes (renderKeywordFilters st h) = filteredEpisodes st
   \<and> map_option episodes (indexData (renderKeywordFilters st h)) = map_option episodes (indexData st)
   \<and> map_option (mset \<circ> all_keywords) (indexData (renderKeywordFilters st h)) =
       map_option (mset \<circ> all_keywords) (indexData st)"
  by (cases "indexData st") (simp_all add: renderKeywordFilters_def Let_def mset_sortWith)

lemma sortEpisodes_frame:
  assumes "filteredEpisodes st \<noteq> allEpisodes st"
  shows "arrays (sortEpisodes localeCompare st h) (allEpisodes st) = arrays h (allEpisodes st)
         \<and> nextRef (sortEpisodes localeCompare st h) = nextRef h"
  using assms by (simp add: sortEpisodes_arrays) (simp add: sortEpisodes_def Let_def)

lemma applyFilters_frame:
  assumes "applyFilters localeCompare st h = (st', h')" and "allEpisodes st < nextRef h"
  shows "arrays h' (allEpisodes st') = arrays h (allEpisodes st)
         \<and> indexData st' = indexData st \<and> allEpisodes st' = allEpisodes st
         \<and> filteredEpisodes st' \<noteq> allEpisodes st' \<and> allEpisodes st' < nextRef h'"
proof -
  let ?st1 = "st\<lparr>filteredEpisodes := nextRef h\<rparr>"
  let ?xs = "searchFilter (searchQuery st) (keywordFilter (selectedKeywords st) (arrays h (allEpisodes st)))"
  let ?h1 = "h\<lparr>arrays := (arrays h)(nextRef h := ?xs), nextRef := Suc (nextRef h)\<rparr>"
  have eq: "applyFilters localeCompare st h = (?st1, sortEpisodes localeCompare ?st1 ?h1)"
    by (simp add: applyFilters_def alloc_def Let_def)
  have st': "st' = ?st1" and h': "h' = sortEpisodes localeCompare ?st1 ?h1"
    using assms(1) [unfolded eq] by blast+
  have ne: "filteredEpisodes ?st1 \<noteq> allEpisodes ?st1"
    using assms(2) by simp
  show ?thesis
    unfolding st' h' using sortEpisodes_frame [OF ne, of localeCompare ?h1] assms(2) by simp
qed

lemma sliceFrom_last: "0 < n \<Longrightarrow> sliceFrom (- int n) xs = drop (length xs - n) xs"
  by (auto simp: sliceFrom_def relIndex_def max_def nat_diff_distrib')

lemma updateHistory_eq:
  "updateHistory message reply history =
     drop (length history + 2 - 10)
       (history @ [\<lparr>role = ''user'', turnContent = message\<rparr>, \<lparr>role = ''assistant'', turnContent = reply\<rparr>])"
  using sliceFrom_last [of 10 "history @ [\<lparr>role = ''user'', turnContent = message\<rparr>, \<lparr>role = ''assistant'', turnContent = reply\<rparr>]"]
  by (simp add: updateHistory_def Let_def)

lemma length_updateHistory: "length (updateHistory message reply history) = min 10 (length history + 2)"
  by (simp add: updateHistory_eq)

lemma queryClaude_cases:
  "queryClaude res message ctx w =
     (case res of
        Response True (Json err (Inr text)) \<Rightarrow>
          (Inr text, w\<lparr>requests := requests w @ [\<lparr>url = ''https://api.anthropic.com/v1/messages'', authKey = apiKey (chat w),
                     preamble = ctx,
                     messages = conversationHistory (chat w) @ [\<lparr>role = ''user'', turnContent = message\<rparr>]\<rparr>],
               chat := (chat w)\<lparr>conversationHistory := updateHistory message text (conversationHistory (chat w))\<rparr>\<rparr>)
      | _ \<Rightarrow> (Inl (case res of Rejected e \<Rightarrow> e | Response ok (NotJson e) \<Rightarrow> e
                      | Response ok (Json err reply) \<Rightarrow> if ok then (case reply of Inl e \<Rightarrow> e | Inr t \<Rightarrow> t) else orElse err ''Failed to get response from Claude''),
              w\<lparr>requests := requests w @ [\<lparr>url = ''https://api.anthropic.com/v1/messages'', authKey = apiKey (chat w),
                     preamble = ctx,
                     messages = conversationHistory (chat w) @ [\<lparr>role = ''user'', turnContent = message\<rparr>]\<rparr>]\<rparr>))"
  by (simp add: queryClaude_def Let_def split: FetchResult.splits Body.splits sum.splits bool.splits)

lemma queryOpenAI_cases:
  "queryOpenAI res message ctx w =
     (case res of
        Response True (Json err (Inr text)) \<Rightarrow>
          (Inr text, w\<lparr>requests := requests w @ [\<lparr>url = ''https://api.openai.com/v1/chat/completions'', authKey = apiKey (chat w),
                     preamble = ctx,
                     messages = conversationHistory (chat w) @ [\<lparr>role = ''user'', turnContent = message\<rparr>]\<rparr>],
               chat := (chat w)\<lparr>conversationHistory := updateHistory message text (conversationHistory (chat w))\<rparr>\<rparr>)
      | _ \<Rightarrow> (Inl (case res of Rejected e \<Rightarrow> e | Response ok (NotJson e) \<Rightarrow> e
                      | Response ok (Json err reply) \<Rightarrow> if ok then (case reply of Inl e \<Rightarrow> e | Inr t \<Rightarrow> t) else orElse err ''Failed to get response from OpenAI''),
              w\<lparr>requests := requests w @ [\<lparr>url = ''https://api.openai.com/v1/chat/completions'', authKey = apiKey (chat w),
                     preamble = ctx,
                     messages = conversationHistory (chat w) @ [\<lparr>role = ''user'', turnContent = message\<rparr>]\<rparr>]\<rparr>))"
  by (simp add: queryOpenAI_def Let_def split: FetchResult.splits Body.splits sum.splits bool.splits)

lemma query_success:
  assumes "q = queryClaude \<or> q = queryOpenAI"
  shows "fst (q res message ctx w) = Inr reply \<longleftrightarrow> (\<exists>err. res = Response True (Json err (Inr reply)))"
  using assms
  by (auto simp: queryClaude_cases queryOpenAI_cases split: FetchResult.splits Body.splits sum.splits bool.splits)

lemma query_success_history:
  assumes "q = queryClaude \<or> q = queryOpenAI"
  shows "conversationHistory (chat (snd (q (Response True (Json err (Inr reply))) message ctx w))) =
           updateHistory message reply (conversationHistory (chat w))"
  using assms by (auto simp: queryClaude_cases queryOpenAI_cases)

lemma query_failure_chat:
  assumes "q = queryClaude \<or> q = queryOpenAI" and "fst (q res message ctx w) = Inl e"
  shows "chat (snd (q res message ctx w)) = chat w"
  using assms
  by (auto simp: queryClaude_cases queryOpenAI_cases split: FetchResult.splits Body.splits sum.splits bool.splits)

lemma query_failure_when:
  assumes "q = queryClaude \<or> q = queryOpenAI" and "res = Rejected e \<or> res = Response False body"
  shows "\<exists>e. fst (q res message ctx w) = Inl e"
  using assms
  by (auto simp: queryClaude_cases queryOpenAI_cases split: FetchResult.splits Body.splits sum.splits bool.splits)

lemma query_chat:
  assumes "q = queryClaude \<or> q = queryOpenAI"
  shows "chat (snd (q res message ctx w)) =
           (case res of
              Response True (Json err (Inr text)) \<Rightarrow>
                (chat w)\<lparr>conversationHistory := updateHistory message text (conversationHistory (chat w))\<rparr>
            | _ \<Rightarrow> chat w)"
  using assms
  by (auto simp: queryClaude_cases queryOpenAI_cases split: FetchResult.splits Body.splits sum.splits bool.splits)

lemma queryAI_chat:
  "chat (snd (queryAI res message ctx w)) =
           (case res of
              Response True (Json err (Inr text)) \<Rightarrow>
                (chat w)\<lparr>conversationHistory := updateHistory message text (conversationHistory (chat w))\<rparr>
            | _ \<Rightarrow> chat w)"
  using query_chat [of queryClaude res message ctx w] query_chat [of queryOpenAI res message ctx w]
  by (simp add: queryAI_def)

lemma sendChatMessage_chat:
  "chat (sendChatMessage res st h w) =
     (if trim (chatInput w) = [] \<or> apiKey (chat w) = [] then chat w
      else (case res of
              Response True (Json err (Inr text)) \<Rightarrow>
                (chat w)\<lparr>conversationHistory := updateHistory (trim (chatInput w)) text (conversationHistory (chat w))\<rparr>
            | _ \<Rightarrow> chat w))"
proof -
  have "chat (sendChatMessage res st h w) =
     (if trim (chatInput w) = [] \<or> apiKey (chat w) = [] then chat w
      else chat (snd (queryAI res (trim (chatInput w)) (getContextForChat st h)
             ((addChatMessage ''user'' (trim (chatInput w)) w)\<lparr>chatInput := [], sendDisabled := True, sendText := ''Sending...''\<rparr>))))"
    by (simp add: sendChatMessage_def Let_def addChatMessage_def split: prod.splits sum.splits)
  then show ?thesis
    by (simp add: queryAI_chat addChatMessage_def
        split: FetchResult.splits Body.splits sum.splits bool.splits)
qed

lemma full_history: "length (conversationHistory (chat fullWorld)) = 10"
  by (simp add: fullWorld_def eval_nat_numeral)

lemma stripPrefix_Some_iff: "stripPrefix p s = Some r \<longleftrightarrow> s = p @ r"
  by (induction p s rule: stripPrefix.induct) auto

lemma firstSome_None_iff: "firstSome f xs = None \<longleftrightarrow> (\<forall>x\<in>set xs. f x = None)"
  by (induction xs) (auto split: option.splits)

lemma firstSome_Some_ex: "(\<exists>y. firstSome f xs = Some y) \<longleftrightarrow> (\<exists>x\<in>set xs. \<exists>y. f x = Some y)"
  using firstSome_None_iff [of f xs] by (metis not_None_eq)

lemma set_spaceSplits: "r \<in> set (spaceSplits s) \<longleftrightarrow> (\<exists>w. s = w @ r \<and> list_all isSpace w)"
proof (induction s)
  case Nil
  then show ?case by auto
next
  case (Cons c cs)
  have split: "(\<exists>w. c # cs = w @ r \<and> list_all isSpace w) \<longleftrightarrow>
        r = c # cs \<or> (isSpace c \<and> (\<exists>w'. cs = w' @ r \<and> list_all isSpace w'))"
    by (auto simp: Cons_eq_append_conv)
  show ?case
    unfolding split using Cons.IH by auto
qed

lemma set_lazySplits: "r \<in> set (lazySplits s) \<longleftrightarrow> (\<exists>m. s = m @ r)"
proof (induction s)
  case Nil
  then show ?case by auto
next
  case (Cons c cs)
  have split: "(\<exists>m. c # cs = m @ r) \<longleftrightarrow> r = c # cs \<or> (\<exists>m'. cs = m' @ r)"
    by (auto simp: Cons_eq_append_conv)
  show ?case
    unfolding split using Cons.IH by auto
qed

lemma spaces_then_newline:
  "(\<exists>x\<in>set (spaceSplits r). \<exists>g. stripPrefix [CHR 0x0A] x = Some g) \<longleftrightarrow>
     (\<exists>w rest. list_all isSpace w \<and> r = w @ [CHR 0x0A] @ rest)"
  unfolding Bex_def set_spaceSplits stripPrefix_Some_iff by blast

lemma matchClosing_Some_ex:
  "(\<exists>g. matchClosing s = Some g) \<longleftrightarrow>
     (\<exists>w2 rest. list_all isSpace w2 \<and> s = [CHR 0x0A, CHR ''-'', CHR ''-'', CHR ''-''] @ w2 @ [CHR 0x0A] @ rest)"
proof (cases "stripPrefix [CHR 0x0A, CHR ''-'', CHR ''-'', CHR ''-''] s")
  case None
  have "s \<noteq> [CHR 0x0A, CHR ''-'', CHR ''-'', CHR ''-''] @ r" for r
    using None stripPrefix_Some_iff [of "[CHR 0x0A, CHR ''-'', CHR ''-'', CHR ''-'']" s r] by simp
  then have "\<not> (\<exists>w2 rest. list_all isSpace w2 \<and> s = [CHR 0x0A, CHR ''-'', CHR ''-'', CHR ''-''] @ w2 @ [CHR 0x0A] @ rest)"
    by blast
  moreover have "matchClosing s = None"
    using None by (simp add: matchClosing_def)
  ultimately show ?thesis by simp
next
  case (Some r)
  then have s: "s = [CHR 0x0A, CHR ''-'', CHR ''-'', CHR ''-''] @ r"
    by (simp only: stripPrefix_Some_iff)
  have "matchClosing s = firstSome (stripPrefix [CHR 0x0A]) (spaceSplits r)"
    using Some by (simp add: matchClosing_def)
  then have "(\<exists>g. matchClosing s = Some g) \<longleftrightarrow> (\<exists>x\<in>set (spaceSplits r). \<exists>g. stripPrefix [CHR 0x0A] x = Some g)"
    by (simp only: firstSome_Some_ex)
  also have "\<dots> \<longleftrightarrow> (\<exists>w2 rest. list_all isSpace w2 \<and> r = w2 @ [CHR 0x0A] @ rest)"
    by (rule spaces_then_newline)
  also have "\<dots> \<longleftrightarrow> (\<exists>w2 rest. list_all isSpace w2 \<and> s = [CHR 0x0A, CHR ''-'', CHR ''-'', CHR ''-''] @ w2 @ [CHR 0x0A] @ rest)"
    unfolding s by simp
  finally show ?thesis .
qed

lemma matchBody_Some_ex:
  "(\<exists>g. matchBody r1 = Some g) \<longleftrightarrow>
     (\<exists>m w2 rest. list_all isSpace w2 \<and>
        r1 = [CHR 0x0A] @ m @ [CHR 0x0A, CHR ''-'', CHR ''-'', CHR ''-''] @ w2 @ [CHR 0x0A] @ rest)"
proof (cases "stripPrefix [CHR 0x0A] r1")
  case None
  have "r1 \<noteq> [CHR 0x0A] @ r" for r
    using None stripPrefix_Some_iff [of "[CHR 0x0A]" r1 r] by simp
  then have "\<not> (\<exists>m w2 rest. list_all isSpace w2 \<and>
        r1 = [CHR 0x0A] @ m @ [CHR 0x0A, CHR ''-'', CHR ''-'', CHR ''-''] @ w2 @ [CHR 0x0A] @ rest)"
    by blast
  moreover have "matchBody r1 = None"
    using None by (simp add: matchBody_def)
  ultimately show ?thesis by simp
next
  case (Some r2)
  then have r1: "r1 = [CHR 0x0A] @ r2"
    by (simp only: stripPrefix_Some_iff)
  have "matchBody r1 = firstSome matchClosing (lazySplits r2)"
    using Some by (simp add: matchBody_def)
  then have "(\<exists>g. matchBody r1 = Some g) \<longleftrightarrow> (\<exists>r3\<in>set (lazySplits r2). \<exists>g. matchClosing r3 = Some g)"
    by (simp only: firstSome_Some_ex)
  also have "\<dots> \<longleftrightarrow> (\<exists>m w2 rest. list_all isSpace w2 \<and>
        r2 = m @ [CHR 0x0A, CHR ''-'', CHR ''-'', CHR ''-''] @ w2 @ [CHR 0x0A] @ rest)"
    unfolding Bex_def set_lazySplits matchClosing_Some_ex by blast
  also have "\<dots> \<longleftrightarrow> (\<exists>m w2 rest. list_all isSpace w2 \<and>
        r1 = [CHR 0x0A] @ m @ [CHR 0x0A, CHR ''-'', CHR ''-'', CHR ''-''] @ w2 @ [CHR 0x0A] @ rest)"
    unfolding r1 by simp
  finally show ?thesis .
qed

lemma matchFrontmatter_Some_ex: "(\<exists>g. matchFrontmatter s = Some g) \<longleftrightarrow> hasFrontmatter s"
proof (cases "stripPrefix ''---'' s")
  case None
  have "s \<noteq> ''---'' @ r" for r
    using None stripPrefix_Some_iff [of "''---''" s r] by simp
  then have "\<not> hasFrontmatter s"
    unfolding hasFrontmatter_def by blast
  moreover have "matchFrontmatter s = None"
    using None by (simp add: matchFrontmatter_def)
  ultimately show ?thesis by simp
next
  case (Some r)
  then have s: "s = ''---'' @ r"
    by (simp only: stripPrefix_Some_iff)
  have "matchFrontmatter s = firstSome matchBody (spaceSplits r)"
    using Some by (simp add: matchFrontmatter_def)
  then have "(\<exists>g. matchFrontmatter s = Some g) \<longleftrightarrow> (\<exists>r1\<in>set (spaceSplits r). \<exists>g. matchBody r1 = Some g)"
    by (simp only: firstSome_Some_ex)
  also have "\<dots> \<longleftrightarrow> (\<exists>w1 m w2 rest. list_all isSpace w1 \<and> list_all isSpace w2 \<and>
        r = w1 @ [CHR 0x0A] @ m @ [CHR 0x0A, CHR ''-'', CHR ''-'', CHR ''-''] @ w2 @ [CHR 0x0A] @ rest)"
    unfolding Bex_def set_spaceSplits matchBody_Some_ex by blast
  also have "\<dots> \<longleftrightarrow> hasFrontmatter s"
    unfolding s hasFrontmatter_def by simp
  finally show ?thesis .
qed

lemma matchFrontmatter_None_iff: "matchFrontmatter s = None \<longleftrightarrow> \<not> hasFrontmatter s"
  using matchFrontmatter_Some_ex [of s] by auto

lemma trim_hello: "trim ''  hello\<newline>'' = ''hello''"
  by (simp add: trim_def isSpace_def)

lemma no_frontmatter_hello: "\<not> hasFrontmatter ''  hello\<newline>''"
  by (simp add: matchFrontmatter_None_iff [symmetric] matchFrontmatter_def)

lemma no_frontmatter_title: "\<not> hasFrontmatter ''# Title\<newline>Body''"
  by (simp add: matchFrontmatter_None_iff [symmetric] matchFrontmatter_def)

lemma frontmatter_example:
  "content (parseTranscript ''---\<newline>guest: Ada\<newline>---\<newline>\<newline>Body text\<newline>'') = ''Body text''"
  by code_simp

section \<open>The keyword filter\<close>

text \<open>
  Claim C1. \<open>applyFilters\<close> keeps a record exactly when every selected keyword is in the
  record's keyword list (and the record passes the search step, which removes nothing when
  the query is empty): the keyword step is the filter "all selected keywords present", a
  conjunction over the selection and never a disjunction, and with an empty selection it
  removes no record.
\<close>

theorem applyFilters_keywords_AND:
  assumes "applyFilters localeCompare st h = (st', h')"
  shows "(e \<in> set (arrays h' (filteredEpisodes st')) \<longleftrightarrow>
            e \<in> set (arrays h (allEpisodes st))
            \<and> (\<forall>k\<in>set (selectedKeywords st). k \<in> set (keywords e))
            \<and> (searchQuery st = [] \<or> includes_str (searchText e) (searchQuery st)))
         \<and> keywordFilter (selectedKeywords st) (arrays h (allEpisodes st)) =
             filter (\<lambda>e. \<forall>k\<in>set (selectedKeywords st). k \<in> set (keywords e)) (arrays h (allEpisodes st))
         \<and> keywordFilter [] (arrays h (allEpisodes st)) = arrays h (allEpisodes st)"
  using applyFilters_member [OF assms, of e]
  by (simp add: keywordFilter_eq)

text \<open>
  The scenario of the specification: of three episodes with the keywords growth; pricing and
  growth; hiring, the selection of growth keeps the first two (here sorted by views) and
  drops the third.
\<close>

theorem applyFilters_keywords_AND_witness:
  "applyFilters compareCodeUnits (loadedState\<lparr>selectedKeywords := [''growth'']\<rparr>) loadedHeap =
     (loadedState\<lparr>selectedKeywords := [''growth''], filteredEpisodes := 4\<rparr>,
      loadedHeap\<lparr>arrays := (arrays loadedHeap)(4 := [episodeB, episodeA]), nextRef := 5\<rparr>)
   \<and> episodeA \<in> set [episodeB, episodeA]
   \<and> episodeC \<notin> set [episodeB, episodeA]
   \<and> ''growth'' \<notin> set (keywords episodeC)"
  using applyFilters_keywords_AND [OF growth_selected, of episodeC]
    applyFilters_keywords_AND [OF growth_selected, of episodeA]
  by (simp add: growth_selected episode_defs)

text \<open>
  Claim C9. Removing a keyword from the selection never shrinks the filtered result: every
  record of the result for a selection is in the result after the keyword \<open>k\<close> is unchecked,
  for every episode list, search query, selection and keyword.
\<close>

theorem removing_keyword_never_shrinks:
  assumes "applyFilters localeCompare st h = (st1, h1)"
    and "handleKeywordFilter localeCompare k False st h = (st2, h2)"
  shows "set (arrays h1 (filteredEpisodes st1)) \<subseteq> set (arrays h2 (filteredEpisodes st2))
         \<and> selectedKeywords st2 = removeAll k (selectedKeywords st)"
proof -
  have sel: "selectedKeywords st2 = removeAll k (selectedKeywords st)"
    using assms(2) by (auto simp: handleKeywordFilter_def applyFilters_def set_delete_def Let_def split: prod.splits)
  have "e \<in> set (arrays h2 (filteredEpisodes st2))" if "e \<in> set (arrays h1 (filteredEpisodes st1))" for e
    using that applyFilters_member [OF assms(1), of e]
      applyFilters_member [OF assms(2) [unfolded handleKeywordFilter_def], of e]
    by (auto simp: set_delete_def)
  with sel show ?thesis by blast
qed

theorem removing_keyword_never_shrinks_witness:
  "applyFilters compareCodeUnits (loadedState\<lparr>selectedKeywords := [''growth'', ''hiring'']\<rparr>) loadedHeap =
     (loadedState\<lparr>selectedKeywords := [''growth'', ''hiring''], filteredEpisodes := 4\<rparr>,
      loadedHeap\<lparr>arrays := (arrays loadedHeap)(4 := []), nextRef := 5\<rparr>)
   \<and> handleKeywordFilter compareCodeUnits ''hiring'' False
       (loadedState\<lparr>selectedKeywords := [''growth'', ''hiring'']\<rparr>) loadedHeap =
     (loadedState\<lparr>selectedKeywords := [''growth''], filteredEpisodes := 4\<rparr>,
      loadedHeap\<lparr>arrays := (arrays loadedHeap)(4 := [episodeB, episodeA]), nextRef := 5\<rparr>)
   \<and> set ([] :: Episode list) \<subseteq> set [episodeB, episodeA]"
  using removing_keyword_never_shrinks [OF growth_hiring_selected hiring_unchecked]
  by (simp add: growth_hiring_selected hiring_unchecked)

section \<open>The search filter\<close>

text \<open>
  Claim C2, as the code has it. For every record and every non-empty stored query, the record
  survives the search step exactly when the query occurs, as a contiguous run, in the
  lower-cased search text of the record. That text is not the bare concatenation of the four
  parts: each of guest, title, description and the keywords joined by single spaces stands
  behind a line break and sixteen spaces, and a line break and twelve spaces end the text.
  The query is compared as stored; \<open>handleSearch\<close> stores the input trimmed and lower-cased.
\<close>

theorem search_filter_substring:
  assumes "applyFilters localeCompare st h = (st', h')" and "searchQuery st \<noteq> []"
  shows "(e \<in> set (arrays h' (filteredEpisodes st')) \<longleftrightarrow>
           e \<in> set (keywordFilter (selectedKeywords st) (arrays h (allEpisodes st)))
           \<and> sublist (searchQuery st)
               (toLowerCase (indent16 @ guest e @ indent16 @ title e @ indent16 @ description e
                  @ indent16 @ join '' '' (keywords e) @ CHR 0x0A # replicate 12 (CHR '' ''))))
         \<and> searchQuery (fst (handleSearch localeCompare v st h)) = toLowerCase (trim v)"
proof -
  have "searchQuery (fst (handleSearch localeCompare v st h)) = toLowerCase (trim v)"
    by (simp add: handleSearch_def applyFilters_def Let_def split: prod.splits)
  then show ?thesis
    using applyFilters_member [OF assms(1), of e] assms(2)
    by (simp add: keywordFilter_eq includes_str_def searchText_def)
qed

theorem search_filter_substring_witness:
  "searchQuery (loadedState\<lparr>searchQuery := ''chesky''\<rparr>) \<noteq> []
   \<and> toLowerCase (trim '' Chesky '') = ''chesky''
   \<and> arrays (snd (handleSearch compareCodeUnits '' Chesky '' loadedState loadedHeap))
       (filteredEpisodes (fst (handleSearch compareCodeUnits '' Chesky '' loadedState loadedHeap))) = [episodeA]
   \<and> sublist ''chesky'' (searchText episodeA)
   \<and> \<not> sublist ''chesky'' (searchText episodeB)"
proof -
  have lc: "toLowerCase (trim '' Chesky '') = ''chesky''"
    by code_simp
  have run: "applyFilters compareCodeUnits (loadedState\<lparr>searchQuery := ''chesky''\<rparr>) loadedHeap =
      (fst (handleSearch compareCodeUnits '' Chesky '' loadedState loadedHeap),
       snd (handleSearch compareCodeUnits '' Chesky '' loadedState loadedHeap))"
    by (simp add: handleSearch_def lc)
  have ne: "searchQuery (loadedState\<lparr>searchQuery := ''chesky''\<rparr>) \<noteq> []"
    by simp
  have a: "sublist ''chesky'' (searchText episodeA)" and b: "\<not> sublist ''chesky'' (searchText episodeB)"
    by code_simp+
  show ?thesis
    using search_filter_substring [OF run ne, of episodeA "'' Chesky ''"] a b
    by (simp add: chesky_arrays lc)
qed

text \<open>
  The claim as worded fails: the query \<open>yfo\<close> occurs in the lower-cased concatenation of the
  guest "Brian Chesky" and the title "Founder mode", yet the search for it keeps no record,
  since the line break and the indentation stand between the two parts.
\<close>

theorem search_concatenation_counterexample:
  "arrays loadedHeap (allEpisodes loadedState) = [episodeA, episodeB, episodeC]
   \<and> selectedKeywords loadedState = []
   \<and> includes_str (specSearchText episodeA) ''yfo''
   \<and> arrays (snd (handleSearch compareCodeUnits ''yfo'' loadedState loadedHeap))
       (filteredEpisodes (fst (handleSearch compareCodeUnits ''yfo'' loadedState loadedHeap))) = []"
  by (simp add: yfo_arrays yfo_spec loaded_simps(2-) loaded_fields)

section \<open>Sorting\<close>

text \<open>
  Claim C3. \<open>sortEpisodes\<close> in the mode \<open>views\<close> (by_views) leaves the displayed array with
  every record's \<open>view_count\<close> at least that of each later record; in the mode \<open>duration\<close>
  (by_duration) the same for \<open>duration_seconds\<close>; in the mode \<open>title\<close> (by_guest_name) in
  ascending order of \<open>guest\<close> under the locale's comparison, for every locale whose
  comparison is a consistent comparator. In every mode the array after the call is a
  permutation of the array before, and no other array changes; switching the mode with
  \<open>handleSortChange\<close> keeps the same records.
\<close>

theorem sortEpisodes_sorted_permutation:
  "(currentSort st = ''views'' \<longrightarrow>
      sorted_wrt (\<lambda>a b. view_count a \<ge> view_count b) (arrays (sortEpisodes localeCompare st h) (filteredEpisodes st)))
   \<and> (currentSort st = ''duration'' \<longrightarrow>
      sorted_wrt (\<lambda>a b. duration_seconds a \<ge> duration_seconds b) (arrays (sortEpisodes localeCompare st h) (filteredEpisodes st)))
   \<and> (currentSort st = ''title'' \<and> consistentComparator localeCompare \<longrightarrow>
      sorted_wrt (\<lambda>a b. localeCompare (guest a) (guest b) \<le> 0) (arrays (sortEpisodes localeCompare st h) (filteredEpisodes st)))
   \<and> mset (arrays (sortEpisodes localeCompare st h) (filteredEpisodes st)) = mset (arrays h (filteredEpisodes st))
   \<and> (r \<noteq> filteredEpisodes st \<longrightarrow> arrays (sortEpisodes localeCompare st h) r = arrays h r)
   \<and> mset (arrays (snd (handleSortChange localeCompare v st h))
              (filteredEpisodes (fst (handleSortChange localeCompare v st h)))) =
       mset (arrays h (filteredEpisodes st))"
proof -
  have views: "sorted_wrt (\<lambda>a b. view_count a \<ge> view_count b) (sortWith byViews xs)" for xs
    using sorted_sortWith [OF consistent_byViews, of xs] by (simp add: byViews_def)
  have dur: "sorted_wrt (\<lambda>a b. duration_seconds a \<ge> duration_seconds b) (sortWith byDuration xs)" for xs
    using sorted_sortWith [OF consistent_byDuration, of xs] by (simp add: byDuration_def)
  have gst: "sorted_wrt (\<lambda>a b. localeCompare (guest a) (guest b) \<le> 0) (sortWith (byGuest localeCompare) xs)"
    if "consistentComparator localeCompare" for xs
    using sorted_sortWith [OF consistent_byGuest [OF that], of xs] by (simp add: byGuest_def)
  have switch: "mset (arrays (snd (handleSortChange localeCompare v st h))
              (filteredEpisodes (fst (handleSortChange localeCompare v st h)))) =
       mset (arrays h (filteredEpisodes st))"
    by (simp add: handleSortChange_def Let_def mset_sortEpisodes)
  show ?thesis
    by (simp add: sortEpisodes_arrays views dur gst mset_sortWith switch)
qed

theorem sortEpisodes_sorted_permutation_witness:
  "consistentComparator compareCodeUnits
   \<and> arrays (sortEpisodes compareCodeUnits (loadedState\<lparr>currentSort := ''title''\<rparr>) loadedHeap) 3 =
       [episodeB, episodeA, episodeC]
   \<and> sorted_wrt (\<lambda>a b. compareCodeUnits (guest a) (guest b) \<le> 0) [episodeB, episodeA, episodeC]
   \<and> mset [episodeB, episodeA, episodeC] = mset [episodeA, episodeB, episodeC]"
  using sortEpisodes_sorted_permutation [of "loadedState\<lparr>currentSort := ''title''\<rparr>" compareCodeUnits loadedHeap 2]
    consistent_compareCodeUnits
  by (simp add: sort_by_guest_example loaded_simps(2-) episode_defs)

section \<open>The chat context\<close>

text \<open>
  Claim C4. For every state, the object of \<open>getContextForChat\<close> holds the number of all
  episodes, the number of filtered episodes and the selected keywords; when an episode is
  open, its guest, title and keywords and the first 8000 characters of its transcript body;
  and the guest, title and keywords of the first 10 filtered episodes (this list is set in
  both cases). The excerpt is never longer than 8000 characters and the list never longer
  than 10 entries.
\<close>

theorem getContextForChat_bounded:
  "ctx_totalEpisodes (getContextForChat st h) = length (arrays h (allEpisodes st))
   \<and> ctx_filteredEpisodes (getContextForChat st h) = length (arrays h (filteredEpisodes st))
   \<and> ctx_selectedKeywords (getContextForChat st h) = selectedKeywords st
   \<and> ctx_currentEpisode (getContextForChat st h) =
       map_option
         (\<lambda>ce. \<lparr>sum_guest = guest ce, sum_title = title ce, sum_keywords = keywords ce,
                 transcript = take 8000 (fullTranscript ce)\<rparr>)
         (currentEpisode st)
   \<and> ctx_availableEpisodes (getContextForChat st h) =
       map (\<lambda>ep. \<lparr>sum_guest = guest ep, sum_title = title ep, sum_keywords = keywords ep\<rparr>)
         (take 10 (arrays h (filteredEpisodes st)))
   \<and> (ctx_currentEpisode (getContextForChat st h) = Some x \<longrightarrow> length (transcript x) \<le> 8000)
   \<and> length (ctx_availableEpisodes (getContextForChat st h)) \<le> 10"
proof -
  have cur: "ctx_currentEpisode (getContextForChat st h) =
       map_option
         (\<lambda>ce. \<lparr>sum_guest = guest ce, sum_title = title ce, sum_keywords = keywords ce,
                 transcript = take 8000 (fullTranscript ce)\<rparr>)
         (currentEpisode st)"
    by (cases "currentEpisode st") (simp_all add: getContextForChat_def substring_0)
  have bound: "length (transcript x) \<le> 8000" if "ctx_currentEpisode (getContextForChat st h) = Some x"
    using that unfolding cur by (cases "currentEpisode st") auto
  have avail: "ctx_availableEpisodes (getContextForChat st h) =
       map (\<lambda>ep. \<lparr>sum_guest = guest ep, sum_title = title ep, sum_keywords = keywords ep\<rparr>)
         (take 10 (arrays h (filteredEpisodes st)))"
    by (simp add: getContextForChat_def slice_0)
  have rest: "ctx_totalEpisodes (getContextForChat st h) = length (arrays h (allEpisodes st))"
    "ctx_filteredEpisodes (getContextForChat st h) = length (arrays h (filteredEpisodes st))"
    "ctx_selectedKeywords (getContextForChat st h) = selectedKeywords st"
    by (simp_all add: getContextForChat_def)
  have len: "length (ctx_availableEpisodes (getContextForChat st h)) \<le> 10"
    unfolding avail by simp
  from cur bound avail rest len show ?thesis by blast
qed

theorem getContextForChat_bounded_witness:
  "length (fullTranscript (Episode.extend episodeA (CurrentEpisode.fields (replicate 9000 (CHR ''x''))))) = 9000
   \<and> length (arrays longHeap (filteredEpisodes longState)) = 12
   \<and> ctx_currentEpisode (getContextForChat longState longHeap) =
       Some \<lparr>sum_guest = ''Brian Chesky'', sum_title = ''Founder mode'', sum_keywords = [''growth''],
             transcript = replicate 8000 (CHR ''x'')\<rparr>
   \<and> length (ctx_availableEpisodes (getContextForChat longState longHeap)) = 10"
proof -
  have a: "length (fullTranscript (Episode.extend episodeA (CurrentEpisode.fields (replicate 9000 (CHR ''x''))))) = 9000"
    by (simp add: CurrentEpisode.defs Episode.defs)
  have b: "length (arrays longHeap (filteredEpisodes longState)) = 12"
    by (simp add: longState_def longHeap_def loaded_fields)
  have "ctx_availableEpisodes (getContextForChat longState longHeap) =
       map (\<lambda>ep. \<lparr>sum_guest = guest ep, sum_title = title ep, sum_keywords = keywords ep\<rparr>)
         (take 10 (arrays longHeap (filteredEpisodes longState)))"
    using getContextForChat_bounded [of longState longHeap] by blast
  then have d: "length (ctx_availableEpisodes (getContextForChat longState longHeap)) = 10"
    using b by simp
  from a b long_context d show ?thesis by blast
qed

section \<open>The chat history\<close>

text \<open>
  Claim C5. For either provider, an ok response whose reply text can be read makes the call
  succeed with that reply, and after it the history holds at most 10 turns, whatever it held
  before: the user turn and the assistant turn are appended, and of the result the last 10
  turns are kept, so the oldest go first. No other response makes the call succeed.
\<close>

theorem history_capped:
  assumes "q = queryClaude \<or> q = queryOpenAI"
    and "res = Response True (Json err (Inr reply))"
  shows "fst (q res message ctx w) = Inr reply
         \<and> conversationHistory (chat (snd (q res message ctx w))) =
             drop (length (conversationHistory (chat w)) + 2 - 10)
               (conversationHistory (chat w) @
                  [\<lparr>role = ''user'', turnContent = message\<rparr>, \<lparr>role = ''assistant'', turnContent = reply\<rparr>])
         \<and> length (conversationHistory (chat (snd (q res message ctx w)))) =
             min 10 (length (conversationHistory (chat w)) + 2)
         \<and> length (conversationHistory (chat (snd (q res message ctx w)))) \<le> 10
         \<and> (fst (q res' message ctx w) = Inr reply' \<longrightarrow>
              (\<exists>err'. res' = Response True (Json err' (Inr reply'))))"
proof -
  have ok: "fst (q res message ctx w) = Inr reply"
    using query_success [OF assms(1), of res message ctx w reply] assms(2) by blast
  have h: "conversationHistory (chat (snd (q res message ctx w))) =
             updateHistory message reply (conversationHistory (chat w))"
    unfolding assms(2) by (rule query_success_history [OF assms(1)])
  have len: "length (conversationHistory (chat (snd (q res message ctx w)))) =
             min 10 (length (conversationHistory (chat w)) + 2)"
    unfolding h by (rule length_updateHistory)
  have eq: "conversationHistory (chat (snd (q res message ctx w))) =
             drop (length (conversationHistory (chat w)) + 2 - 10)
               (conversationHistory (chat w) @
                  [\<lparr>role = ''user'', turnContent = message\<rparr>, \<lparr>role = ''assistant'', turnContent = reply\<rparr>])"
    unfolding h by (rule updateHistory_eq)
  have le: "length (conversationHistory (chat (snd (q res message ctx w)))) \<le> 10"
    unfolding len by simp
  have only: "\<exists>err'. res' = Response True (Json err' (Inr reply'))"
    if "fst (q res' message ctx w) = Inr reply'"
    using that query_success [OF assms(1), of res' message ctx w reply'] by blast
  from ok eq len le only show ?thesis by blast
qed

theorem history_capped_witness:
  "length (conversationHistory (chat fullWorld)) = 10
   \<and> fst (queryClaude (Response True (Json None (Inr ''hi''))) ''hello''
         (getContextForChat loadedState loadedHeap) fullWorld) = Inr ''hi''
   \<and> conversationHistory (chat (snd (queryClaude (Response True (Json None (Inr ''hi''))) ''hello''
         (getContextForChat loadedState loadedHeap) fullWorld))) =
       concat (replicate 4 [\<lparr>role = ''user'', turnContent = ''q''\<rparr>, \<lparr>role = ''assistant'', turnContent = ''a''\<rparr>])
         @ [\<lparr>role = ''user'', turnContent = ''hello''\<rparr>, \<lparr>role = ''assistant'', turnContent = ''hi''\<rparr>]
   \<and> fst (queryOpenAI (Response True (Json None (Inr ''hi''))) ''hello''
         (getContextForChat loadedState loadedHeap) fullWorld) = Inr ''hi''
   \<and> conversationHistory (chat (snd (queryOpenAI (Response True (Json None (Inr ''hi''))) ''hello''
         (getContextForChat loadedState loadedHeap) fullWorld))) =
       concat (replicate 4 [\<lparr>role = ''user'', turnContent = ''q''\<rparr>, \<lparr>role = ''assistant'', turnContent = ''a''\<rparr>])
         @ [\<lparr>role = ''user'', turnContent = ''hello''\<rparr>, \<lparr>role = ''assistant'', turnContent = ''hi''\<rparr>]"
proof -
  let ?res = "Response True (Json None (Inr ''hi''))"
  let ?c = "getContextForChat loadedState loadedHeap"
  let ?new = "concat (replicate 4 [\<lparr>role = ''user'', turnContent = ''q''\<rparr>, \<lparr>role = ''assistant'', turnContent = ''a''\<rparr>])
         @ [\<lparr>role = ''user'', turnContent = ''hello''\<rparr>, \<lparr>role = ''assistant'', turnContent = ''hi''\<rparr>]"
  have last10: "drop (length (conversationHistory (chat fullWorld)) + 2 - 10)
               (conversationHistory (chat fullWorld) @
                  [\<lparr>role = ''user'', turnContent = ''hello''\<rparr>, \<lparr>role = ''assistant'', turnContent = ''hi''\<rparr>]) = ?new"
    by (simp add: fullWorld_def eval_nat_numeral)
  have claude: "fst (queryClaude ?res ''hello'' ?c fullWorld) = Inr ''hi''
      \<and> conversationHistory (chat (snd (queryClaude ?res ''hello'' ?c fullWorld))) = ?new"
    using history_capped [OF disjI1 [OF refl] refl, of None "''hi''" "''hello''" ?c fullWorld]
    unfolding last10 by blast
  have openai: "fst (queryOpenAI ?res ''hello'' ?c fullWorld) = Inr ''hi''
      \<and> conversationHistory (chat (snd (queryOpenAI ?res ''hello'' ?c fullWorld))) = ?new"
    using history_capped [OF disjI2 [OF refl] refl, of None "''hi''" "''hello''" ?c fullWorld]
    unfolding last10 by blast
  from full_history claude openai show ?thesis by blast
qed

text \<open>
  Claim C10. A call that fails with a provider error (the fetch rejects, or the response is
  not ok) ends in an error and leaves the chat state, and so the history, as it was; the
  same holds for the whole of \<open>sendChatMessage\<close>. The chat state changes only when an ok
  response has been parsed and its reply text read.
\<close>

theorem failed_exchange_keeps_history:
  assumes "q = queryClaude \<or> q = queryOpenAI"
    and "res = Rejected e \<or> res = Response False body"
  shows "(\<exists>msg. fst (q res message ctx w) = Inl msg)
         \<and> chat (snd (q res message ctx w)) = chat w
         \<and> conversationHistory (chat (sendChatMessage res st h w)) = conversationHistory (chat w)
         \<and> (chat (snd (q res' message ctx w)) \<noteq> chat w \<longrightarrow>
              (\<exists>err reply. res' = Response True (Json err (Inr reply))))"
proof -
  have "chat (snd (q res message ctx w)) = chat w"
    using assms(2) by (auto simp: query_chat [OF assms(1)])
  moreover have "conversationHistory (chat (sendChatMessage res st h w)) = conversationHistory (chat w)"
    using assms(2) by (auto simp: sendChatMessage_chat)
  moreover have "\<exists>err reply. res' = Response True (Json err (Inr reply))"
    if "chat (snd (q res' message ctx w)) \<noteq> chat w"
    using that unfolding query_chat [OF assms(1)]
    by (auto split: FetchResult.splits Body.splits sum.splits bool.splits)
  ultimately show ?thesis
    using query_failure_when [OF assms] by blast
qed

theorem failed_exchange_keeps_history_witness:
  "fst (queryOpenAI (Response False (Json (Some ''quota'') (Inl []))) ''hello'' (getContextForChat loadedState loadedHeap) fullWorld)
     = Inl ''quota''
   \<and> chat (snd (queryOpenAI (Response False (Json (Some ''quota'') (Inl []))) ''hello''
        (getContextForChat loadedState loadedHeap) fullWorld)) = chat fullWorld
   \<and> conversationHistory (chat (sendChatMessage (Response False (Json (Some ''quota'') (Inl []))) loadedState loadedHeap fullWorld))
       = conversationHistory (chat fullWorld)"
  using failed_exchange_keeps_history
    [where q = queryOpenAI and res = "Response False (Json (Some ''quota'') (Inl []))" and e = "[]"
       and body = "Json (Some ''quota'') (Inl [])" and message = "''hello''"
       and ctx = "getContextForChat loadedState loadedHeap" and w = fullWorld
       and st = loadedState and h = loadedHeap]
  by (simp add: queryOpenAI_cases orElse_def)

text \<open>
  Claim C6, as the code has it. With no API key configured, \<open>sendChatMessage\<close> makes no
  request, leaves the send control and the chat state as they were, and, for an input that
  is not blank, shows the error "Please enter your API key first."; a blank input is
  dropped before the key is looked at, with no error at all.
\<close>

theorem no_key_no_request:
  assumes "apiKey (chat w) = []"
  shows "sendChatMessage res st h w =
           (if trim (chatInput w) = [] then w
            else addChatMessage ''error'' ''Please enter your API key first.'' w)
         \<and> requests (sendChatMessage res st h w) = requests w
         \<and> sendDisabled (sendChatMessage res st h w) = sendDisabled w
         \<and> chat (sendChatMessage res st h w) = chat w"
  using assms by (simp add: sendChatMessage_def Let_def addChatMessage_def)

theorem no_key_no_request_witness:
  "apiKey (chat noKeyWorld) = []
   \<and> trim (chatInput noKeyWorld) = ''hello''
   \<and> chatMessages (sendChatMessage (Rejected []) loadedState loadedHeap noKeyWorld) =
       [(''error'', ''Please enter your API key first.'')]
   \<and> requests (sendChatMessage (Rejected []) loadedState loadedHeap noKeyWorld) = []
   \<and> sendDisabled (sendChatMessage (Rejected []) loadedState loadedHeap noKeyWorld) = False"
proof -
  have k: "apiKey (chat noKeyWorld) = []"
    by (simp add: noKeyWorld_def)
  have t: "trim (chatInput noKeyWorld) = ''hello''"
    by (simp add: noKeyWorld_def trim_def isSpace_def)
  show ?thesis
    using no_key_no_request [OF k, of "Rejected []" loadedState loadedHeap] k t
    by (simp add: addChatMessage_def) (simp add: noKeyWorld_def)
qed

text \<open>
  The claim as worded fails for a blank input: with no key configured, sending three spaces
  shows no error; the state after the call is the state before.
\<close>

theorem no_key_blank_counterexample:
  "apiKey (chat blankWorld) = []
   \<and> chatMessages blankWorld = []
   \<and> sendChatMessage (Rejected []) loadedState loadedHeap blankWorld = blankWorld"
  by (simp add: blankWorld_def noKeyWorld_def sendChatMessage_def trim_def isSpace_def)

section \<open>The transcript body\<close>

text \<open>
  Claim C7, as the code has it. For every fetched text without the leading metadata pattern,
  the regular expression does not match and the body of \<open>parseTranscript\<close> is the fetched
  text with the white space at both ends removed; this is the transcript stored for the open
  episode.
\<close>

theorem parseTranscript_without_frontmatter:
  assumes "\<not> hasFrontmatter fullText"
  shows "matchFrontmatter fullText = None
         \<and> content (parseTranscript fullText) = trim fullText
         \<and> (find (\<lambda>ep. slug ep = s) (arrays h (allEpisodes st)) = Some episode \<longrightarrow>
              currentEpisode (loadEpisodeDetail (Some fullText) s st h) =
                Some (Episode.extend episode (CurrentEpisode.fields (trim fullText))))"
proof -
  have none: "matchFrontmatter fullText = None"
    using assms by (simp add: matchFrontmatter_None_iff)
  then have body: "content (parseTranscript fullText) = trim fullText"
    by (simp add: parseTranscript_def)
  then show ?thesis
    using none by (simp add: loadEpisodeDetail_def Let_def)
qed

theorem parseTranscript_without_frontmatter_witness:
  "\<not> hasFrontmatter ''# Title\<newline>Body''
   \<and> content (parseTranscript ''# Title\<newline>Body'') = ''# Title\<newline>Body''
   \<and> trim ''# Title\<newline>Body'' = ''# Title\<newline>Body''"
proof -
  have t: "trim ''# Title\<newline>Body'' = ''# Title\<newline>Body''"
    by (simp add: trim_def isSpace_def)
  show ?thesis
    using parseTranscript_without_frontmatter [OF no_frontmatter_title] no_frontmatter_title t
    by simp
qed

text \<open>
  The claim as worded fails: a text that starts with two spaces and ends with a line break
  has no metadata pattern, and its body is not the text as fetched.
\<close>

theorem parseTranscript_trims_counterexample:
  "\<not> hasFrontmatter ''  hello\<newline>''
   \<and> content (parseTranscript ''  hello\<newline>'') = ''hello''
   \<and> content (parseTranscript ''  hello\<newline>'') \<noteq> ''  hello\<newline>''"
proof -
  have "matchFrontmatter ''  hello\<newline>'' = None"
    using no_frontmatter_hello by (simp add: matchFrontmatter_None_iff)
  then have "content (parseTranscript ''  hello\<newline>'') = ''hello''"
    by (simp add: parseTranscript_def trim_hello)
  then show ?thesis
    using no_frontmatter_hello by simp
qed

section \<open>The index document after loading\<close>

text \<open>
  Claim C8 says that no operation after loading writes the index document. Run on the
  archive loaded above, \<open>renderKeywordFilters\<close> leaves \<open>all_keywords\<close> of the document in
  another order: \<open>sort\<close> works on the array of the document itself. (The lemmas
  \<open>renderKeywordFilters_frame\<close> and \<open>applyFilters_frame\<close> above show what does stay: the
  episodes array, and the keywords up to their order.)
\<close>

theorem renderKeywordFilters_reorders_all_keywords:
  "indexData loadedState =
     Some \<lparr>total_episodes = 3, all_keywords = [''hiring'', ''pricing'', ''growth''], episodes = 2\<rparr>
   \<and> indexData (renderKeywordFilters loadedState loadedHeap) =
     Some \<lparr>total_episodes = 3, all_keywords = [''growth'', ''hiring'', ''pricing''], episodes = 2\<rparr>"
  by (simp add: renderKeywordFilters_def loaded_fields loaded_simps(2-) sortWith_def byCount_def
      example_counts orZero_def)

end
